theory Spec2Isabelle
  imports Main "HOL-Library.Word" "HOL-Library.AList"
begin

section \<open>JavaScript values used by App.js\<close>

text \<open>
  A JavaScript string is a sequence of UTF-16 code units: \<open>length\<close>, \<open>substring\<close> and
  \<open>trim\<close> all work on code units. A string literal of the source is written \<open>js ''...''\<close>.
\<close>

type_synonym jschar = "16 word"
type_synonym jsstring = "jschar list"

definition js :: "string \<Rightarrow> jsstring" where
  "js s = map of_char s"

text \<open>
  \<open>String.prototype.trim\<close> removes WhiteSpace and LineTerminator code points from both
  ends (ECMAScript 22.1.3.32): TAB, LF, VT, FF, CR, SP, NBSP, U+1680, U+2000..U+200A,
  U+2028, U+2029, U+202F, U+205F, U+3000 and U+FEFF.
\<close>

definition isWhiteSpace :: "jschar \<Rightarrow> bool" where
  "isWhiteSpace c =
     (c \<in> set [0x9, 0xA, 0xB, 0xC, 0xD, 0x20, 0xA0, 0x1680,
                0x2028, 0x2029, 0x202F, 0x205F, 0x3000, 0xFEFF]
      \<or> (0x2000 \<le> c \<and> c \<le> 0x200A))"

definition trim :: "jsstring \<Rightarrow> jsstring" where
  "trim s = rev (dropWhile isWhiteSpace (rev (dropWhile isWhiteSpace s)))"

text \<open>A string is falsy exactly when it is empty.\<close>

definition truthy :: "jsstring \<Rightarrow> bool" where
  "truthy s = (s \<noteq> [])"


section \<open>Component state\<close>

text \<open>
  A chat message as \<open>sendMessage\<close> builds it and as the chat tab renders it. The
  timestamp is the ISO string of the clock reading; the clock is an input of the model.
\<close>

record message =
  role :: jsstring
  content :: jsstring
  timestamp :: jsstring

text \<open>An element of the array returned by \<open>GET /recent\<close>: a message tagged with its session.\<close>

record history_message = message +
  msg_sessionId :: jsstring

datatype tab = chat | summarize | history

text \<open>The \<open>useState\<close> cells of \<open>App\<close>, in the order of their declaration.\<close>

record app_state =
  messages :: "message list"
  inputMessage :: jsstring
  sessionId :: jsstring
  loading :: bool
  activeTab :: tab
  summarizeText :: jsstring
  summary :: jsstring
  recentChats :: "history_message list"

definition initial_state :: app_state where
  "initial_state = \<lparr>messages = [], inputMessage = [], sessionId = [], loading = False,
     activeTab = chat, summarizeText = [], summary = [], recentChats = []\<rparr>"

section \<open>The remote service\<close>

text \<open>
  What a handler sends out (an axios request) or prints, and what comes back at the
  \<open>await\<close>: the promise resolves with the response data or rejects.
\<close>

datatype request =
    PostSend jsstring "jsstring option"
  | PostSummarize jsstring
  | DeleteHistory jsstring
  | GetRecent

datatype effect = Request request | ConsoleError jsstring | Alert jsstring

record send_response =
  response :: jsstring
  resp_sessionId :: jsstring

datatype 'a outcome = Resolved 'a | Rejected

section \<open>Asynchronous handlers\<close>

text \<open>
  An \<open>async\<close> handler runs synchronously up to its \<open>await\<close> (\<open>_begin\<close>), and its
  continuation (\<open>_finish\<close>) runs when the promise settles, on the state of that moment,
  since every \<open>setMessages\<close> of the source is a functional update. The continuation sees
  the variables the closure captured when the handler started; for \<open>sendMessage\<close> that
  is \<open>sessionId\<close>. The handler under its source name runs both phases with no other
  event in between.
\<close>

subsection \<open>sendMessage\<close>

definition userMessage :: "jsstring \<Rightarrow> jsstring \<Rightarrow> message" where
  "userMessage text now = \<lparr>role = js ''user'', content = text, timestamp = now\<rparr>"

definition assistantMessage :: "send_response \<Rightarrow> jsstring \<Rightarrow> message" where
  "assistantMessage d now = \<lparr>role = js ''assistant'', content = response d, timestamp = now\<rparr>"

definition errorMessage :: "jsstring \<Rightarrow> message" where
  "errorMessage now =
     \<lparr>role = js ''assistant'',
      content = js ''Sorry, I encountered an error. Please try again.'',
      timestamp = now\<rparr>"

definition sendMessage_begin :: "jsstring \<Rightarrow> app_state \<Rightarrow> app_state \<times> effect list" where
  "sendMessage_begin now s =
     (if \<not> truthy (trim (inputMessage s)) then (s, [])
      else (s\<lparr>messages := messages s @ [userMessage (inputMessage s) now],
               inputMessage := [],
               loading := True\<rparr>,
            [Request (PostSend (inputMessage s)
                        (if truthy (sessionId s) then Some (sessionId s) else None))]))"

definition sendMessage_finish ::
  "jsstring \<Rightarrow> jsstring \<Rightarrow> send_response outcome \<Rightarrow> app_state \<Rightarrow> app_state \<times> effect list" where
  "sendMessage_finish captured_sessionId now r s =
     (case r of
        Resolved d \<Rightarrow>
          (s\<lparr>messages := messages s @ [assistantMessage d now],
             sessionId := (if \<not> truthy captured_sessionId then resp_sessionId d else sessionId s),
             loading := False\<rparr>,
           [])
      | Rejected \<Rightarrow>
          (s\<lparr>messages := messages s @ [errorMessage now], loading := False\<rparr>,
           [ConsoleError (js ''Error sending message:'')]))"

definition sendMessage ::
  "jsstring \<Rightarrow> jsstring \<Rightarrow> send_response outcome \<Rightarrow> app_state \<Rightarrow> app_state \<times> effect list" where
  "sendMessage now1 now2 r s =
     (case sendMessage_begin now1 s of
        (s1, []) \<Rightarrow> (s1, [])
      | (s1, e # es) \<Rightarrow>
          (case sendMessage_finish (sessionId s) now2 r s1 of
             (s2, es2) \<Rightarrow> (s2, (e # es) @ es2)))"

subsection \<open>handleSummarize\<close>

definition handleSummarize_begin :: "app_state \<Rightarrow> app_state \<times> effect list" where
  "handleSummarize_begin s =
     (if \<not> truthy (trim (summarizeText s)) then (s, [])
      else (s\<lparr>loading := True\<rparr>, [Request (PostSummarize (summarizeText s))]))"

definition handleSummarize_finish :: "jsstring outcome \<Rightarrow> app_state \<Rightarrow> app_state \<times> effect list" where
  "handleSummarize_finish r s =
     (case r of
        Resolved d \<Rightarrow> (s\<lparr>summary := d, loading := False\<rparr>, [])
      | Rejected \<Rightarrow>
          (s\<lparr>summary := js ''Error: Could not generate summary. Please try again.'',
             loading := False\<rparr>,
           [ConsoleError (js ''Error summarizing text:'')]))"

definition handleSummarize :: "jsstring outcome \<Rightarrow> app_state \<Rightarrow> app_state \<times> effect list" where
  "handleSummarize r s =
     (case handleSummarize_begin s of
        (s1, []) \<Rightarrow> (s1, [])
      | (s1, e # es) \<Rightarrow>
          (case handleSummarize_finish r s1 of (s2, es2) \<Rightarrow> (s2, (e # es) @ es2)))"

subsection \<open>clearChat\<close>

text \<open>
  The delete request is issued only for a truthy \<open>sessionId\<close>; its rejection is caught
  and logged. The two resets after the \<open>try\<close> run on every path. When no request is
  issued there is nothing to wait for, and the outcome argument is not looked at.
\<close>

definition clearChat_begin :: "app_state \<Rightarrow> app_state \<times> effect list" where
  "clearChat_begin s =
     (if truthy (sessionId s) then (s, [Request (DeleteHistory (sessionId s))]) else (s, []))"

definition clearChat_reset :: "app_state \<Rightarrow> app_state" where
  "clearChat_reset s = s\<lparr>messages := [], sessionId := []\<rparr>"

definition clearChat_finish :: "unit outcome \<Rightarrow> app_state \<Rightarrow> app_state \<times> effect list" where
  "clearChat_finish r s =
     (case r of
        Resolved _ \<Rightarrow> (clearChat_reset s, [])
      | Rejected \<Rightarrow> (clearChat_reset s, [ConsoleError (js ''Error clearing history:'')]))"

definition clearChat :: "unit outcome \<Rightarrow> app_state \<Rightarrow> app_state \<times> effect list" where
  "clearChat r s =
     (case clearChat_begin s of
        (s1, []) \<Rightarrow> (clearChat_reset s1, [])
      | (s1, e # es) \<Rightarrow>
          (case clearChat_finish r s1 of (s2, es2) \<Rightarrow> (s2, (e # es) @ es2)))"

subsection \<open>loadRecentChats\<close>

definition loadRecentChats_begin :: "app_state \<Rightarrow> app_state \<times> effect list" where
  "loadRecentChats_begin s = (s\<lparr>loading := True\<rparr>, [Request GetRecent])"

definition loadRecentChats_finish ::
  "history_message list outcome \<Rightarrow> app_state \<Rightarrow> app_state \<times> effect list" where
  "loadRecentChats_finish r s =
     (case r of
        Resolved d \<Rightarrow> (s\<lparr>recentChats := d, loading := False\<rparr>, [])
      | Rejected \<Rightarrow> (s\<lparr>loading := False\<rparr>, [ConsoleError (js ''Error loading recent chats:'')]))"

section \<open>Events of the chat and summarize tabs\<close>

text \<open>
  \<open>handleKeyPress\<close> routes Enter without Shift to the handler of the active tab. The
  send button and the chat textarea exist only while the chat tab is active, and a
  disabled control dispatches no event: the button is disabled by
  \<open>loading || !inputMessage.trim()\<close>, the textarea by \<open>loading\<close>.
\<close>

record key_event =
  key :: jsstring
  shiftKey :: bool

definition handleKeyPress :: "key_event \<Rightarrow> jsstring \<Rightarrow> app_state \<Rightarrow> app_state \<times> effect list" where
  "handleKeyPress e now s =
     (if key e = js ''Enter'' \<and> \<not> shiftKey e then
        (if activeTab s = chat then sendMessage_begin now s
         else if activeTab s = summarize then handleSummarize_begin s
         else (s, []))
      else (s, []))"

definition send_button_click :: "jsstring \<Rightarrow> app_state \<Rightarrow> app_state \<times> effect list" where
  "send_button_click now s =
     (if activeTab s = chat \<and> \<not> (loading s \<or> \<not> truthy (trim (inputMessage s)))
      then sendMessage_begin now s else (s, []))"

definition chat_textarea_keypress ::
  "key_event \<Rightarrow> jsstring \<Rightarrow> app_state \<Rightarrow> app_state \<times> effect list" where
  "chat_textarea_keypress e now s =
     (if activeTab s = chat \<and> \<not> loading s then handleKeyPress e now s else (s, []))"

text \<open>
  Typing into the chat textarea (\<open>onChange\<close>; nothing while it is disabled) and a click
  on a tab button. The effect on \<open>activeTab\<close> starts \<open>loadRecentChats\<close> when the
  history tab becomes active.
\<close>

definition chat_textarea_change :: "jsstring \<Rightarrow> app_state \<Rightarrow> app_state" where
  "chat_textarea_change text s =
     (if activeTab s = chat \<and> \<not> loading s then s\<lparr>inputMessage := text\<rparr> else s)"

definition tab_click :: "tab \<Rightarrow> app_state \<Rightarrow> app_state \<times> effect list" where
  "tab_click t s =
     (if activeTab s \<noteq> t \<and> t = history then loadRecentChats_begin (s\<lparr>activeTab := t\<rparr>)
      else (s\<lparr>activeTab := t\<rparr>, []))"

text \<open>
  The Clear button of the chat tab, disabled only by an empty log
  (\<open>messages.length === 0\<close>), not by \<open>loading\<close>. With an empty session id
  \<open>clearChat\<close> has nothing to wait for and resets at once; otherwise the reset comes
  with \<open>clearChat_finish\<close>.
\<close>

definition clear_button_click :: "app_state \<Rightarrow> app_state \<times> effect list" where
  "clear_button_click s =
     (if activeTab s = chat \<and> messages s \<noteq> [] then
        (case clearChat_begin s of
           (s1, []) \<Rightarrow> (clearChat_reset s1, [])
         | (s1, e # es) \<Rightarrow> (s1, e # es))
      else (s, []))"

section \<open>History tab: grouping the recent messages by session\<close>

text \<open>
  The history tab builds \<open>const sessions = {}\<close> and fills it in a \<open>forEach\<close>. The model
  keeps what a plain object does with string keys:
  \<^item> own properties are kept in creation order (an association list);
  \<^item> a read of a key that is no own property goes to \<open>Object.prototype\<close>, whose
    properties (functions, and the prototype itself under \<open>__proto__\<close>) are truthy and
    have no \<open>push\<close>;
  \<^item> \<open>Object.entries\<close> lists the keys that are array indices first, in ascending numeric
    order, then the other string keys in creation order (OrdinaryOwnPropertyKeys).
\<close>

datatype js_error = TypeError

type_synonym sessions_object = "(jsstring \<times> history_message list) list"

definition objectPrototypeKeys :: "jsstring list" where
  "objectPrototypeKeys = map js
     [''constructor'', ''__defineGetter__'', ''__defineSetter__'', ''hasOwnProperty'',
      ''__lookupGetter__'', ''__lookupSetter__'', ''isPrototypeOf'', ''propertyIsEnumerable'',
      ''toString'', ''valueOf'', ''__proto__'', ''toLocaleString'']"

datatype property_value = Undefined | Array "history_message list" | Inherited

definition getProperty :: "sessions_object \<Rightarrow> jsstring \<Rightarrow> property_value" where
  "getProperty obj k =
     (case map_of obj k of
        Some a \<Rightarrow> Array a
      | None \<Rightarrow> if k \<in> set objectPrototypeKeys then Inherited else Undefined)"

text \<open>
  An array index is the canonical decimal string of an integer from 0 to \<open>2^32 - 2\<close>: digits
  only, no leading zero.
\<close>

definition isDigit :: "jschar \<Rightarrow> bool" where
  "isDigit c = (0x30 \<le> c \<and> c \<le> 0x39)"

definition digitsValue :: "jsstring \<Rightarrow> nat" where
  "digitsValue s = foldl (\<lambda>n c. 10 * n + (unat c - 48)) 0 s"

definition isArrayIndex :: "jsstring \<Rightarrow> bool" where
  "isArrayIndex s =
     (s \<noteq> [] \<and> list_all isDigit s \<and> (length s = 1 \<or> hd s \<noteq> 0x30)
      \<and> digitsValue s < 4294967295)"

definition Object_entries :: "sessions_object \<Rightarrow> (jsstring \<times> history_message list) list" where
  "Object_entries obj =
     sort_key (\<lambda>e. digitsValue (fst e)) (filter (\<lambda>e. isArrayIndex (fst e)) obj)
     @ filter (\<lambda>e. \<not> isArrayIndex (fst e)) obj"

text \<open>
  The body of the \<open>forEach\<close>: the guard \<open>!sessions[msg.sessionId]\<close> holds only for
  \<open>undefined\<close>; \<open>push\<close> on anything but an array throws.
\<close>

definition groupMessage :: "sessions_object \<Rightarrow> history_message \<Rightarrow> js_error + sessions_object" where
  "groupMessage obj msg =
     (let k = msg_sessionId msg;
          obj1 = (if getProperty obj k = Undefined then AList.update k [] obj else obj)
      in case getProperty obj1 k of
           Array a \<Rightarrow> Inr (AList.update k (a @ [msg]) obj1)
         | Inherited \<Rightarrow> Inl TypeError
         | Undefined \<Rightarrow> Inl TypeError)"

fun forEach_group :: "sessions_object \<Rightarrow> history_message list \<Rightarrow> js_error + sessions_object" where
  "forEach_group obj [] = Inr obj"
| "forEach_group obj (msg # rest) =
     (case groupMessage obj msg of
        Inl e \<Rightarrow> Inl e
      | Inr obj' \<Rightarrow> forEach_group obj' rest)"

text \<open>
  What the \<open>map\<close> callback computes for one entry before it renders it. An index
  outside the array reads \<open>undefined\<close>, which is \<open>None\<close> here.
\<close>

record history_group =
  sessId :: jsstring
  msgs :: "history_message list"
  firstMessage :: "history_message option"
  lastMessage :: "history_message option"
  messageCount :: nat
  preview :: jsstring

definition sessionSummary :: "jsstring \<times> history_message list \<Rightarrow> history_group" where
  "sessionSummary e =
     (case e of (k, ms) \<Rightarrow>
        \<lparr>sessId = k,
         msgs = ms,
         firstMessage = (if ms = [] then None else Some (hd ms)),
         lastMessage = (if ms = [] then None else Some (last ms)),
         messageCount = length ms,
         preview =
           (case find (\<lambda>m. role m = js ''user'') ms of
              None \<Rightarrow> js ''Chat session''
            | Some m \<Rightarrow> if truthy (content m) then content m else js ''Chat session'')\<rparr>)"

definition groupBySession :: "history_message list \<Rightarrow> js_error + history_group list" where
  "groupBySession chats =
     (case forEach_group [] chats of
        Inl e \<Rightarrow> Inl e
      | Inr obj \<Rightarrow> Inr (map sessionSummary (Object_entries obj)))"

text \<open>The text of the \<open>history-preview\<close> element: two adjacent text nodes.\<close>

definition history_preview :: "history_group \<Rightarrow> jsstring" where
  "history_preview g =
     take 100 (preview g) @ (if length (preview g) > 100 then js ''...'' else js '''')"

text \<open>The Load Chat button of a group.\<close>

definition load_button_click :: "history_group \<Rightarrow> app_state \<Rightarrow> app_state" where
  "load_button_click g s =
     s\<lparr>sessionId := sessId g,
       messages := map (\<lambda>m. \<lparr>role = role m, content = content m, timestamp = timestamp m\<rparr>) (msgs g),
       activeTab := chat\<rparr>"

text \<open>
  The Delete button of a group: after the confirmation dialog the delete request goes
  out; when it resolves the list is loaded again, when it is rejected the failure is
  logged and shown in an alert.
\<close>

definition delete_button_click_begin ::
  "bool \<Rightarrow> history_group \<Rightarrow> app_state \<Rightarrow> app_state \<times> effect list" where
  "delete_button_click_begin confirmed g s =
     (if confirmed then (s, [Request (DeleteHistory (sessId g))]) else (s, []))"

definition delete_button_click_finish :: "unit outcome \<Rightarrow> app_state \<Rightarrow> app_state \<times> effect list" where
  "delete_button_click_finish r s =
     (case r of
        Resolved _ \<Rightarrow> loadRecentChats_begin s
      | Rejected \<Rightarrow>
          (s, [ConsoleError (js ''Error deleting session:''),
               Alert (js ''Failed to delete session'')]))"

text \<open>Feeding the groups back: their messages in group order.\<close>

definition flatten :: "history_group list \<Rightarrow> history_message list" where
  "flatten gs = concat (map msgs gs)"

subsection \<open>The grouping as the specification words it\<close>

text \<open>
  The session ids in order of first appearance, and for each the messages that carry
  it, in input order.
\<close>

fun firstAppearance :: "'a list \<Rightarrow> 'a list" where
  "firstAppearance [] = []"
| "firstAppearance (x # xs) = x # firstAppearance (filter (\<lambda>y. y \<noteq> x) xs)"

definition partitionBySession :: "history_message list \<Rightarrow> (jsstring \<times> history_message list) list" where
  "partitionBySession chats =
     map (\<lambda>k. (k, filter (\<lambda>m. msg_sessionId m = k) chats))
       (firstAppearance (map msg_sessionId chats))"


section \<open>Auxiliary notions for the statements\<close>

text \<open>The message a \<open>sendMessage\<close> continuation appends for a given outcome.\<close>

definition replyMessage :: "send_response outcome \<Rightarrow> jsstring \<Rightarrow> message" where
  "replyMessage r now =
     (case r of Resolved d \<Rightarrow> assistantMessage d now | Rejected \<Rightarrow> errorMessage now)"

text \<open>
  Entries as a grouping produces them: distinct keys, and under each key a non-empty
  list of messages that all carry the key.
\<close>

definition well_grouped :: "(jsstring \<times> history_message list) list \<Rightarrow> bool" where
  "well_grouped es =
     (distinct (map fst es)
      \<and> list_all (\<lambda>e. snd e \<noteq> [] \<and> list_all (\<lambda>m. msg_sessionId m = fst e) (snd e)) es)"

text \<open>Concrete inputs for the examples.\<close>

definition hmsg :: "string \<Rightarrow> string \<Rightarrow> string \<Rightarrow> history_message" where
  "hmsg sid r c = \<lparr>role = js r, content = js c, timestamp = [], msg_sessionId = js sid\<rparr>"

definition long_group :: history_group where
  "long_group =
     sessionSummary (js ''A'',
       [\<lparr>role = js ''user'', content = replicate 150 0x61, timestamp = [],
         msg_sessionId = js ''A''\<rparr>])"

definition short_group :: history_group where
  "short_group =
     sessionSummary (js ''A'',
       [\<lparr>role = js ''user'', content = replicate 50 0x61, timestamp = [],
         msg_sessionId = js ''A''\<rparr>])"

definition typed_state :: app_state where
  "typed_state = initial_state\<lparr>inputMessage := js ''hi''\<rparr>"

definition blank_state :: app_state where
  "blank_state = initial_state\<lparr>inputMessage := js ''  ''\<rparr>"

definition established_state :: app_state where
  "established_state = initial_state\<lparr>inputMessage := js ''hi'', sessionId := js ''S1''\<rparr>"

definition summarize_state :: app_state where
  "summarize_state =
     initial_state\<lparr>activeTab := summarize, summarizeText := js ''long text'', summary := js ''old''\<rparr>"

definition blank_summarize_state :: app_state where
  "blank_summarize_state =
     initial_state\<lparr>activeTab := summarize, summarizeText := js ''  '', summary := js ''old''\<rparr>"

text \<open>
  A run of the view from \<open>typed_state\<close>: Send is clicked; the History tab is opened while
  the request is out; the history load resolves; back on the Chat tab a new text is typed.
\<close>

definition first_send_pending :: app_state where
  "first_send_pending = fst (send_button_click (js ''t1'') typed_state)"

definition history_loaded :: app_state where
  "history_loaded =
     fst (loadRecentChats_finish (Resolved []) (fst (tab_click history first_send_pending)))"

definition retyped_state :: app_state where
  "retyped_state = chat_textarea_change (js ''again'') (fst (tab_click chat history_loaded))"

definition other_response :: send_response where
  "other_response = \<lparr>response = js ''hello'', resp_sessionId = js ''S2''\<rparr>"

definition enter_key :: key_event where
  "enter_key = \<lparr>key = js ''Enter'', shiftKey = False\<rparr>"


section \<open>The session controller\<close>

lemma trim_empty_iff: "trim s = [] \<longleftrightarrow> list_all isWhiteSpace s"
proof -
  have "set s = set (takeWhile isWhiteSpace s) \<union> set (dropWhile isWhiteSpace s)"
    by (metis set_append takeWhile_dropWhile_id)
  moreover have "\<forall>c \<in> set (takeWhile isWhiteSpace s). isWhiteSpace c"
    by (auto dest: set_takeWhileD)
  moreover have "\<And>c. c \<in> set (dropWhile isWhiteSpace s) \<Longrightarrow> c \<in> set s"
    by (rule set_dropWhileD)
  ultimately show ?thesis
    by (auto simp: trim_def dropWhile_eq_Nil_conv list_all_iff)
qed

lemma typed_state_nonblank: "trim (inputMessage typed_state) \<noteq> []"
  by (simp add: typed_state_def initial_state_def js_def trim_def isWhiteSpace_def)

text \<open>
  Claim C1, as the code has it. The call is suspended at its \<open>await\<close>, and the Clear
  button stays enabled meanwhile. Send, then Clear, then the response: the completed call
  leaves a log of one message, the assistant's, where the log before had none.
\<close>

theorem sendMessage_cleared_during_wait:
  "trim (inputMessage typed_state) \<noteq> []
   \<and> messages typed_state = []
   \<and> snd (send_button_click (js ''t1'') typed_state) = [Request (PostSend (js ''hi'') None)]
   \<and> messages (fst (send_button_click (js ''t1'') typed_state))
       = [userMessage (js ''hi'') (js ''t1'')]
   \<and> messages (fst (clear_button_click (fst (send_button_click (js ''t1'') typed_state)))) = []
   \<and> messages (fst (sendMessage_finish (sessionId typed_state) (js ''t2'')
         (Resolved other_response)
         (fst (clear_button_click (fst (send_button_click (js ''t1'') typed_state))))))
       = [assistantMessage other_response (js ''t2'')]"
  by (simp add: typed_state_def initial_state_def send_button_click_def clear_button_click_def
      clearChat_begin_def clearChat_reset_def sendMessage_begin_def sendMessage_finish_def
      truthy_def js_def trim_def isWhiteSpace_def)

text \<open>
  Claim C1, amended. When the input is not blank after trimming, a \<open>sendMessage\<close> call
  appends exactly two messages: its first phase appends the user message to the log, its
  continuation appends one message to the log as it then is, the assistant's answer on
  success and the fixed error notice on failure. When the log at the time of the response
  is still the one the first phase left (no other event has changed it in between), the
  log afterwards is the log before followed by the user message and the reply, next to
  each other in that order; the count has grown by 2 and the earlier messages are
  untouched. The handler run with nothing in between is one such case.
\<close>

theorem sendMessage_uninterrupted_appends_pair:
  assumes "trim (inputMessage s) \<noteq> []"
    and "messages s' = messages (fst (sendMessage_begin now1 s))"
  shows "messages (fst (sendMessage_begin now1 s))
           = messages s @ [userMessage (inputMessage s) now1]
       \<and> messages (fst (sendMessage_finish c now2 r s'')) = messages s'' @ [replyMessage r now2]
       \<and> messages (fst (sendMessage_finish c now2 r s'))
           = messages s @ [userMessage (inputMessage s) now1, replyMessage r now2]
       \<and> length (messages (fst (sendMessage_finish c now2 r s'))) = length (messages s) + 2
       \<and> take (length (messages s)) (messages (fst (sendMessage_finish c now2 r s')))
           = messages s
       \<and> messages (fst (sendMessage now1 now2 r s))
           = messages s @ [userMessage (inputMessage s) now1, replyMessage r now2]
       \<and> role (userMessage (inputMessage s) now1) = js ''user''
       \<and> role (replyMessage r now2) = js ''assistant''
       \<and> content (replyMessage Rejected now2)
           = js ''Sorry, I encountered an error. Please try again.''
       \<and> content (replyMessage (Resolved d) now2) = response d"
proof -
  from assms(1) have ph1: "messages (fst (sendMessage_begin now1 s))
      = messages s @ [userMessage (inputMessage s) now1]"
    by (simp add: sendMessage_begin_def truthy_def)
  have ph2: "\<And>t. messages (fst (sendMessage_finish c now2 r t))
      = messages t @ [replyMessage r now2]"
    by (cases r) (simp_all add: sendMessage_finish_def replyMessage_def)
  have later: "messages (fst (sendMessage_finish c now2 r s'))
      = messages s @ [userMessage (inputMessage s) now1, replyMessage r now2]"
    by (simp add: ph2 assms(2) ph1)
  from assms(1) have whole: "messages (fst (sendMessage now1 now2 r s))
      = messages s @ [userMessage (inputMessage s) now1, replyMessage r now2]"
    by (cases r)
       (simp_all add: sendMessage_def sendMessage_begin_def sendMessage_finish_def truthy_def
          replyMessage_def)
  have roles: "role (userMessage (inputMessage s) now1) = js ''user''
      \<and> role (replyMessage r now2) = js ''assistant''
      \<and> content (replyMessage Rejected now2)
           = js ''Sorry, I encountered an error. Please try again.''
      \<and> content (replyMessage (Resolved d) now2) = response d"
    by (cases r)
       (simp_all add: replyMessage_def userMessage_def assistantMessage_def errorMessage_def)
  show ?thesis
    using ph1 ph2 [of s''] whole roles by (simp add: later)
qed

theorem sendMessage_uninterrupted_appends_pair_witness:
  "trim (inputMessage typed_state) \<noteq> []
   \<and> messages (fst (tab_click summarize (fst (sendMessage_begin (js ''t1'') typed_state))))
       = messages (fst (sendMessage_begin (js ''t1'') typed_state))
   \<and> messages (fst (sendMessage_finish [] (js ''t2'') (Resolved other_response)
         (fst (tab_click summarize (fst (sendMessage_begin (js ''t1'') typed_state))))))
       = [userMessage (js ''hi'') (js ''t1''), assistantMessage other_response (js ''t2'')]
   \<and> messages (fst (sendMessage (js ''t1'') (js ''t2'') Rejected typed_state))
       = [userMessage (js ''hi'') (js ''t1''), errorMessage (js ''t2'')]"
proof -
  let ?s' = "fst (tab_click summarize (fst (sendMessage_begin (js ''t1'') typed_state)))"
  have same: "messages ?s' = messages (fst (sendMessage_begin (js ''t1'') typed_state))"
    by (simp add: tab_click_def)
  have inp: "inputMessage typed_state = js ''hi''" and log: "messages typed_state = []"
    by (simp_all add: typed_state_def initial_state_def)
  show ?thesis
    using typed_state_nonblank same
      sendMessage_uninterrupted_appends_pair [OF typed_state_nonblank same,
        of "[]" "js ''t2''" "Resolved other_response" typed_state]
      sendMessage_uninterrupted_appends_pair [OF typed_state_nonblank same,
        of "[]" "js ''t2''" Rejected typed_state]
    by (simp add: inp log replyMessage_def)
qed

text \<open>
  While \<open>loading\<close> is set the send button and the chat textarea are disabled, so a click
  on the button or a key press in the textarea starts no \<open>sendMessage\<close>: the state stays
  as it is and nothing is requested. This is the gate the view puts before a second send.
\<close>

lemma disabled_controls_while_loading:
  assumes "loading s"
  shows "send_button_click now s = (s, []) \<and> chat_textarea_keypress e now s = (s, [])"
  using assms by (simp add: send_button_click_def chat_textarea_keypress_def)

text \<open>
  Claim C2, on the code. \<open>loading\<close> is one cell for all three requests, and the
  \<open>finally\<close> of \<open>loadRecentChats\<close> clears it. In the run below the first send is out
  and \<open>loading\<close> is set; opening the History tab starts a history load; when that load
  resolves \<open>loading\<close> is false although the send has not settled; back on the Chat tab
  the send button is enabled again, and a click appends a second user message and issues
  a second request. Two sends are then pending together.
\<close>

theorem second_send_while_first_pending:
  "snd (send_button_click (js ''t1'') typed_state) = [Request (PostSend (js ''hi'') None)]
   \<and> loading first_send_pending
   \<and> snd (tab_click history first_send_pending) = [Request GetRecent]
   \<and> \<not> loading history_loaded
   \<and> messages history_loaded = [userMessage (js ''hi'') (js ''t1'')]
   \<and> snd (send_button_click (js ''t2'') retyped_state)
       = [Request (PostSend (js ''again'') None)]
   \<and> messages (fst (send_button_click (js ''t2'') retyped_state))
       = [userMessage (js ''hi'') (js ''t1''), userMessage (js ''again'') (js ''t2'')]"
  by (simp add: first_send_pending_def history_loaded_def retyped_state_def
      send_button_click_def chat_textarea_change_def tab_click_def
      loadRecentChats_begin_def loadRecentChats_finish_def sendMessage_begin_def
      typed_state_def initial_state_def truthy_def js_def trim_def isWhiteSpace_def)

text \<open>
  Claim C4. After \<open>clearChat\<close> the log is empty and the session id is the empty string,
  whether the delete request resolved, was rejected (the rejection is only logged) or
  was never issued because the id was already empty; the same holds when the
  continuation runs on a later state.
\<close>

theorem clearChat_resets_session:
  "messages (fst (clearChat r s)) = [] \<and> sessionId (fst (clearChat r s)) = []
   \<and> messages (fst (clearChat_finish r s')) = []
   \<and> sessionId (fst (clearChat_finish r s')) = []
   \<and> (snd (clearChat_begin s) = [] \<longleftrightarrow> sessionId s = [])"
  by (cases r)
     (simp_all add: clearChat_def clearChat_begin_def clearChat_finish_def
        clearChat_reset_def truthy_def)

theorem clearChat_resets_session_witness:
  "messages (fst (clearChat Rejected established_state)) = []
   \<and> sessionId (fst (clearChat Rejected established_state)) = []
   \<and> sessionId established_state = js ''S1''"
  using clearChat_resets_session [of Rejected established_state]
  by (simp add: established_state_def initial_state_def)

text \<open>
  Claim C5. A \<open>sendMessage\<close> call made while the session id is non-empty leaves the id
  as it is, whatever id the response carries: the continuation tests the id the call
  captured, and assigns only when that one is empty.
\<close>

theorem sendMessage_keeps_established_sessionId:
  assumes "sessionId s \<noteq> []"
  shows "sessionId (fst (sendMessage now1 now2 r s)) = sessionId s
       \<and> sessionId (fst (sendMessage_begin now1 s)) = sessionId s
       \<and> sessionId (fst (sendMessage_finish (sessionId s) now2 r s')) = sessionId s'"
  using assms
  by (cases r)
     (simp_all add: sendMessage_def sendMessage_begin_def sendMessage_finish_def truthy_def)

theorem sendMessage_keeps_established_sessionId_witness:
  "sessionId established_state \<noteq> []
   \<and> resp_sessionId other_response = js ''S2''
   \<and> sessionId (fst (sendMessage (js ''t1'') (js ''t2'') (Resolved other_response)
        established_state)) = js ''S1''"
proof -
  have h: "sessionId established_state \<noteq> []"
    by (simp add: established_state_def initial_state_def js_def)
  show ?thesis
    using h sendMessage_keeps_established_sessionId [OF h,
        of "js ''t1''" "js ''t2''" "Resolved other_response"]
    by (simp add: established_state_def initial_state_def other_response_def)
qed

text \<open>
  Claim C7. When the input is empty or all whitespace, \<open>sendMessage\<close> returns at its
  first line: the whole state (log, session id, \<open>loading\<close>) is unchanged and no request
  is issued.
\<close>

theorem sendMessage_blank_is_noop:
  assumes "list_all isWhiteSpace (inputMessage s)"
  shows "sendMessage_begin now1 s = (s, []) \<and> sendMessage now1 now2 r s = (s, [])"
  using assms by (simp add: sendMessage_def sendMessage_begin_def truthy_def trim_empty_iff)

theorem sendMessage_blank_is_noop_witness:
  "list_all isWhiteSpace (inputMessage blank_state)
   \<and> inputMessage blank_state \<noteq> []
   \<and> sendMessage (js ''t1'') (js ''t2'') (Resolved other_response) blank_state
       = (blank_state, [])"
proof -
  have h: "list_all isWhiteSpace (inputMessage blank_state)"
    by (simp add: blank_state_def initial_state_def js_def isWhiteSpace_def)
  show ?thesis
    using h sendMessage_blank_is_noop [OF h, of "js ''t1''" "js ''t2''" "Resolved other_response"]
    by (simp add: blank_state_def initial_state_def js_def)
qed

section \<open>The summarizer\<close>

text \<open>
  Claim C8, as the code has it. A text of two spaces is not empty, yet
  \<open>handleSummarize\<close> returns at its first line: nothing is requested and the summary
  keeps its old value.
\<close>

theorem handleSummarize_blank_keeps_summary:
  "summarizeText blank_summarize_state \<noteq> []
   \<and> handleSummarize (Resolved (js ''short'')) blank_summarize_state
       = (blank_summarize_state, [])
   \<and> summary blank_summarize_state = js ''old''
   \<and> js ''old'' \<noteq> js ''short''"
  by (simp add: blank_summarize_state_def initial_state_def handleSummarize_def
      handleSummarize_begin_def truthy_def js_def trim_def isWhiteSpace_def)

text \<open>
  Claim C8, amended. When the text is not blank after trimming, \<open>handleSummarize\<close>
  sends it and then sets the summary to the returned string on success and to the fixed
  error string on failure, whatever the summary was before; \<open>loading\<close> is false
  afterwards on both paths.
\<close>

theorem handleSummarize_stores_result:
  assumes "trim (summarizeText s) \<noteq> []"
  shows "summary (fst (handleSummarize (Resolved d) s)) = d
       \<and> summary (fst (handleSummarize Rejected s))
           = js ''Error: Could not generate summary. Please try again.''
       \<and> \<not> loading (fst (handleSummarize r s))
       \<and> summary (fst (handleSummarize_finish (Resolved d) s')) = d
       \<and> summary (fst (handleSummarize_finish Rejected s'))
           = js ''Error: Could not generate summary. Please try again.''
       \<and> \<not> loading (fst (handleSummarize_finish r s'))
       \<and> snd (handleSummarize_begin s) = [Request (PostSummarize (summarizeText s))]"
  using assms
  by (cases r)
     (simp_all add: handleSummarize_def handleSummarize_begin_def handleSummarize_finish_def
        truthy_def)

theorem handleSummarize_stores_result_witness:
  "trim (summarizeText summarize_state) \<noteq> []
   \<and> summary summarize_state = js ''old''
   \<and> summary (fst (handleSummarize (Resolved (js ''short'')) summarize_state)) = js ''short''
   \<and> summary (fst (handleSummarize Rejected summarize_state))
       = js ''Error: Could not generate summary. Please try again.''"
proof -
  have h: "trim (summarizeText summarize_state) \<noteq> []"
    by (simp add: summarize_state_def initial_state_def js_def trim_def isWhiteSpace_def)
  show ?thesis
    using h handleSummarize_stores_result [OF h, of "js ''short''" Rejected]
    by (simp add: summarize_state_def initial_state_def)
qed


section \<open>The history grouping\<close>

subsection \<open>First appearance\<close>

lemma set_firstAppearance: "set (firstAppearance ks) = set ks"
  by (induction ks rule: firstAppearance.induct) auto

lemma distinct_firstAppearance: "distinct (firstAppearance ks)"
  by (induction ks rule: firstAppearance.induct) (auto simp: set_firstAppearance)

lemma firstAppearance_snoc:
  "firstAppearance (ks @ [k]) =
     (if k \<in> set ks then firstAppearance ks else firstAppearance ks @ [k])"
  by (induction ks rule: firstAppearance.induct) auto

lemma filter_other_id: "k \<notin> set ks \<Longrightarrow> filter (\<lambda>y. y \<noteq> k) ks = ks"
  by (induction ks) auto

lemma filter_key_absent: "k \<notin> set (map f xs) \<Longrightarrow> filter (\<lambda>x. f x = k) xs = []"
  by (induction xs) auto

lemma firstAppearance_group_head:
  assumes "v \<noteq> []" and "\<forall>x \<in> set v. x = k" and "k \<notin> set rest"
  shows "firstAppearance (v @ rest) = k # firstAppearance rest"
proof -
  from assms(1,2) obtain v' where v: "v = k # v'" by (cases v) auto
  with assms(2) have "filter (\<lambda>y. y \<noteq> k) v' = []"
    by (auto simp: filter_empty_conv)
  moreover from assms(3) have "filter (\<lambda>y. y \<noteq> k) rest = rest"
    by (rule filter_other_id)
  ultimately show ?thesis
    by (simp add: v)
qed

subsection \<open>The object after the loop\<close>

lemma map_of_tabulate:
  "map_of (map (\<lambda>j. (j, f j)) ks) k = (if k \<in> set ks then Some (f k) else None)"
  by (induction ks) auto

lemma update_tabulate_new:
  "k \<notin> set ks \<Longrightarrow>
     AList.update k v (map (\<lambda>j. (j, f j)) ks) = map (\<lambda>j. (j, f j)) ks @ [(k, v)]"
  by (induction ks) auto

lemma update_tabulate_old:
  "k \<in> set ks \<Longrightarrow> distinct ks \<Longrightarrow>
     AList.update k v (map (\<lambda>j. (j, f j)) ks) = map (\<lambda>j. (j, if j = k then v else f j)) ks"
  by (induction ks) auto

lemma forEach_group_snoc:
  "forEach_group obj (xs @ [m]) =
     (case forEach_group obj xs of Inl e \<Rightarrow> Inl e | Inr obj' \<Rightarrow> groupMessage obj' m)"
  by (induction xs arbitrary: obj) (auto split: sum.splits)

text \<open>One more message whose key is no property of the prototype extends the partition.\<close>

lemma groupMessage_partition:
  assumes "msg_sessionId m \<notin> set objectPrototypeKeys"
  shows "groupMessage (partitionBySession xs) m = Inr (partitionBySession (xs @ [m]))"
proof (cases "msg_sessionId m \<in> set (map msg_sessionId xs)")
  case True
  then have "getProperty (partitionBySession xs) (msg_sessionId m)
               = Array (filter (\<lambda>x. msg_sessionId x = msg_sessionId m) xs)"
    by (simp add: getProperty_def partitionBySession_def map_of_tabulate set_firstAppearance)
  moreover have "AList.update (msg_sessionId m)
        (filter (\<lambda>x. msg_sessionId x = msg_sessionId m) xs @ [m]) (partitionBySession xs)
      = partitionBySession (xs @ [m])"
    using True
    by (simp add: partitionBySession_def firstAppearance_snoc update_tabulate_old
        set_firstAppearance distinct_firstAppearance)
  ultimately show ?thesis
    by (simp add: groupMessage_def)
next
  case False
  then have none: "filter (\<lambda>x. msg_sessionId x = msg_sessionId m) xs = []"
    by (rule filter_key_absent)
  from False assms have "getProperty (partitionBySession xs) (msg_sessionId m) = Undefined"
    by (simp add: getProperty_def partitionBySession_def map_of_tabulate set_firstAppearance)
  moreover have "getProperty (AList.update (msg_sessionId m) [] (partitionBySession xs))
                   (msg_sessionId m) = Array []"
    by (simp add: getProperty_def AList.update_conv')
  moreover have "AList.update (msg_sessionId m) [m] (partitionBySession xs)
                   = partitionBySession (xs @ [m])"
    using False none
    by (auto simp: partitionBySession_def firstAppearance_snoc update_tabulate_new
        set_firstAppearance)
  ultimately show ?thesis
    by (simp add: groupMessage_def)
qed

text \<open>A key found on the prototype only: the guard is skipped and \<open>push\<close> throws.\<close>

lemma groupMessage_inherited:
  assumes "msg_sessionId m \<in> set objectPrototypeKeys"
    and "msg_sessionId m \<notin> fst ` set obj"
  shows "groupMessage obj m = Inl TypeError"
proof -
  from assms(2) have "map_of obj (msg_sessionId m) = None"
    by (simp add: map_of_eq_None_iff)
  with assms(1) show ?thesis
    by (simp add: groupMessage_def getProperty_def)
qed

lemma forEach_group_partition:
  "forEach_group [] xs =
     (if \<forall>m \<in> set xs. msg_sessionId m \<notin> set objectPrototypeKeys
      then Inr (partitionBySession xs) else Inl TypeError)"
proof (induction xs rule: rev_induct)
  case Nil
  show ?case by (simp add: partitionBySession_def)
next
  case (snoc m xs)
  show ?case
  proof (cases "\<forall>x \<in> set xs. msg_sessionId x \<notin> set objectPrototypeKeys")
    case False
    with snoc show ?thesis by (auto simp: forEach_group_snoc)
  next
    case True
    show ?thesis
    proof (cases "msg_sessionId m \<in> set objectPrototypeKeys")
      case False
      with True snoc show ?thesis
        by (simp add: forEach_group_snoc groupMessage_partition)
    next
      case inh: True
      with True have "msg_sessionId m \<notin> fst ` set (partitionBySession xs)"
        by (auto simp: partitionBySession_def set_firstAppearance)
      with inh have "groupMessage (partitionBySession xs) m = Inl TypeError"
        by (rule groupMessage_inherited)
      with True inh snoc show ?thesis
        by (simp add: forEach_group_snoc)
    qed
  qed
qed

text \<open>
  The grouping in closed form: it throws exactly when some session id names a property
  of \<open>Object.prototype\<close>, and otherwise lists the partition in the key order of
  \<open>Object.entries\<close>.
\<close>

lemma groupBySession_closed_form:
  "groupBySession chats =
     (if \<forall>m \<in> set chats. msg_sessionId m \<notin> set objectPrototypeKeys
      then Inr (map sessionSummary (Object_entries (partitionBySession chats)))
      else Inl TypeError)"
  by (simp add: groupBySession_def forEach_group_partition)

subsection \<open>Key order\<close>

lemma Object_entries_no_index:
  assumes "\<forall>e \<in> set obj. \<not> isArrayIndex (fst e)"
  shows "Object_entries obj = obj"
proof -
  from assms have "filter (\<lambda>e. isArrayIndex (fst e)) obj = []"
    by (simp add: filter_empty_conv)
  moreover from assms have "filter (\<lambda>e. \<not> isArrayIndex (fst e)) obj = obj"
    by (simp add: filter_id_conv)
  ultimately show ?thesis
    by (simp add: Object_entries_def)
qed

lemma Object_entries_idem: "Object_entries (Object_entries obj) = Object_entries obj"
proof -
  let ?P = "\<lambda>e::jsstring \<times> history_message list. isArrayIndex (fst e)"
  let ?f = "\<lambda>e::jsstring \<times> history_message list. digitsValue (fst e)"
  let ?S = "sort_key ?f (filter ?P obj)"
  let ?N = "filter (\<lambda>e. \<not> ?P e) obj"
  have S1: "filter ?P ?S = ?S" by (simp add: filter_id_conv)
  have S2: "filter (\<lambda>e. \<not> ?P e) ?S = []" by (simp add: filter_empty_conv)
  have N1: "filter ?P ?N = []" by (simp add: filter_empty_conv)
  have N2: "filter (\<lambda>e. \<not> ?P e) ?N = ?N" by simp
  have S3: "sort_key ?f ?S = ?S" by (rule sort_key_id_if_sorted) simp
  show ?thesis
    unfolding Object_entries_def filter_append S1 S2 N1 N2 append_Nil2 append_Nil S3 ..
qed

lemma set_Object_entries: "set (Object_entries obj) = set obj"
  by (auto simp: Object_entries_def)

lemma distinct_keys_Object_entries:
  assumes "distinct (map fst obj)"
  shows "distinct (map fst (Object_entries obj))"
proof -
  from assms have d: "distinct obj" and i: "inj_on fst (set obj)"
    by (simp_all add: distinct_map)
  have "distinct (Object_entries obj)"
    using d by (auto simp: Object_entries_def)
  with i show ?thesis
    by (simp add: distinct_map set_Object_entries)
qed

subsection \<open>Groups and their messages\<close>

lemma well_grouped_Object_entries:
  "well_grouped obj \<Longrightarrow> well_grouped (Object_entries obj)"
  by (simp add: well_grouped_def distinct_keys_Object_entries list_all_iff set_Object_entries)

lemma well_grouped_partition: "well_grouped (partitionBySession xs)"
proof -
  have "\<And>k. k \<in> set (map msg_sessionId xs) \<Longrightarrow> filter (\<lambda>m. msg_sessionId m = k) xs \<noteq> []"
    by (induction xs) auto
  then show ?thesis
    by (auto simp: well_grouped_def partitionBySession_def distinct_firstAppearance
        set_firstAppearance list_all_iff comp_def distinct_map inj_on_def)
qed

text \<open>Partitioning the concatenation of well-grouped entries gives the entries back.\<close>

lemma partition_of_groups:
  "well_grouped es \<Longrightarrow> partitionBySession (concat (map snd es)) = es"
proof (induction es)
  case Nil
  show ?case by (simp add: partitionBySession_def)
next
  case (Cons e es)
  obtain k v where e: "e = (k, v)" by (cases e)
  let ?rest = "concat (map snd es)"
  from Cons.prems have wg: "well_grouped es"
    and v: "v \<noteq> []" "\<forall>m \<in> set v. msg_sessionId m = k"
    and k: "k \<notin> fst ` set es"
    by (auto simp: well_grouped_def e list_all_iff)
  from wg have keys: "\<forall>m \<in> set ?rest. msg_sessionId m \<in> fst ` set es"
    by (auto simp: well_grouped_def list_all_iff)
  with k have knot: "k \<notin> set (map msg_sessionId ?rest)"
    by auto
  have fa: "firstAppearance (map msg_sessionId (v @ ?rest))
              = k # firstAppearance (map msg_sessionId ?rest)"
    unfolding map_append using v knot
    by (intro firstAppearance_group_head) auto
  have own: "filter (\<lambda>m. msg_sessionId m = k) (v @ ?rest) = v"
    using v knot by (simp add: filter_id_conv filter_key_absent)
  have other: "\<And>j. j \<in> set (map msg_sessionId ?rest) \<Longrightarrow>
      filter (\<lambda>m. msg_sessionId m = j) (v @ ?rest) = filter (\<lambda>m. msg_sessionId m = j) ?rest"
    using v knot by (auto simp: filter_empty_conv)
  have "partitionBySession (v @ ?rest) = (k, v) # partitionBySession ?rest"
    unfolding partitionBySession_def fa
    using own other by (simp add: set_firstAppearance)
  with Cons.IH [OF wg] show ?case
    by (simp add: e)
qed

lemma msgs_sessionSummary: "map msgs (map sessionSummary es) = map snd es"
  by (induction es) (auto simp: sessionSummary_def)

lemmas grouping_eval =
  groupBySession_def groupMessage_def getProperty_def objectPrototypeKeys_def
  Object_entries_def isArrayIndex_def isDigit_def digitsValue_def sessionSummary_def
  truthy_def js_def hmsg_def Let_def


subsection \<open>Order of the groups\<close>

text \<open>
  Claim C3, as the code has it. With the session ids "2" then "1" the groups come out
  as "1", "2": \<open>Object.entries\<close> lists array-index keys in ascending numeric order, not
  in order of first appearance. With the session id "constructor" the grouping throws:
  \<open>sessions["constructor"]\<close> is the inherited function, so the guard is skipped and
  \<open>push\<close> is not a function.
\<close>

theorem groupBySession_key_order_counterexample:
  "map_sum id (map sessId)
     (groupBySession [hmsg ''2'' ''user'' ''first'', hmsg ''1'' ''user'' ''second''])
     = Inr [js ''1'', js ''2'']
   \<and> firstAppearance
       (map msg_sessionId [hmsg ''2'' ''user'' ''first'', hmsg ''1'' ''user'' ''second''])
     = [js ''2'', js ''1'']
   \<and> groupBySession [hmsg ''constructor'' ''user'' ''hi''] = Inl TypeError"
  by (simp add: grouping_eval)

text \<open>
  Claim C3, amended. When no session id of the input is an array index or the name of a
  property of \<open>Object.prototype\<close>, the grouping returns the partition of the input by
  session id: one group per id, in order of first appearance, each holding the messages
  of that id in input order, with \<open>messageCount\<close> their number. For the three
  messages of the example (any timestamps) it returns group A with preview "hi" and
  count 2, then group B with preview "Chat session" and count 1.
\<close>

theorem groupBySession_first_appearance_order:
  assumes "\<forall>m \<in> set chats. msg_sessionId m \<notin> set objectPrototypeKeys
                            \<and> \<not> isArrayIndex (msg_sessionId m)"
  shows "(\<exists>gs. groupBySession chats = Inr gs
            \<and> gs = map sessionSummary (partitionBySession chats)
            \<and> map sessId gs = firstAppearance (map msg_sessionId chats)
            \<and> (\<forall>g \<in> set gs. msgs g = filter (\<lambda>m. msg_sessionId m = sessId g) chats
                             \<and> messageCount g = length (msgs g)))
       \<and> map_sum id (map (\<lambda>g. (sessId g, preview g, messageCount g)))
           (groupBySession
              [\<lparr>role = js ''user'', content = js ''hi'', timestamp = t1,
                msg_sessionId = js ''A''\<rparr>,
               \<lparr>role = js ''assistant'', content = js ''hello'', timestamp = t2,
                msg_sessionId = js ''A''\<rparr>,
               \<lparr>role = js ''assistant'', content = js ''x'', timestamp = t3,
                msg_sessionId = js ''B''\<rparr>])
         = Inr [(js ''A'', js ''hi'', 2), (js ''B'', js ''Chat session'', 1)]"
    (is "?general \<and> ?example")
proof
  from assms have "\<forall>e \<in> set (partitionBySession chats). \<not> isArrayIndex (fst e)"
    by (auto simp: partitionBySession_def set_firstAppearance)
  then have "Object_entries (partitionBySession chats) = partitionBySession chats"
    by (rule Object_entries_no_index)
  with assms have "groupBySession chats = Inr (map sessionSummary (partitionBySession chats))"
    by (simp add: groupBySession_closed_form)
  moreover have "map sessId (map sessionSummary (partitionBySession chats))
                   = firstAppearance (map msg_sessionId chats)"
    by (simp add: partitionBySession_def sessionSummary_def comp_def)
  moreover have "\<forall>g \<in> set (map sessionSummary (partitionBySession chats)).
      msgs g = filter (\<lambda>m. msg_sessionId m = sessId g) chats \<and> messageCount g = length (msgs g)"
    by (auto simp: partitionBySession_def sessionSummary_def)
  ultimately show ?general
    by blast
next
  show ?example
    by (simp add: grouping_eval)
qed

theorem groupBySession_first_appearance_order_witness:
  "\<exists>gs. groupBySession [hmsg ''A'' ''user'' ''hi'', hmsg ''A'' ''assistant'' ''hello'',
                          hmsg ''B'' ''assistant'' ''x''] = Inr gs
        \<and> map sessId gs = [js ''A'', js ''B'']"
proof -
  let ?chats = "[hmsg ''A'' ''user'' ''hi'', hmsg ''A'' ''assistant'' ''hello'',
                 hmsg ''B'' ''assistant'' ''x'']"
  have h: "\<forall>m \<in> set ?chats. msg_sessionId m \<notin> set objectPrototypeKeys
                              \<and> \<not> isArrayIndex (msg_sessionId m)"
    by (simp add: hmsg_def js_def objectPrototypeKeys_def isArrayIndex_def isDigit_def)
  from groupBySession_first_appearance_order [OF h]
  obtain gs where run: "groupBySession ?chats = Inr gs"
    and ids: "map sessId gs = firstAppearance (map msg_sessionId ?chats)"
    by blast
  have "firstAppearance (map msg_sessionId ?chats) = [js ''A'', js ''B'']"
    by (simp add: hmsg_def js_def)
  with ids have ids': "map sessId gs = [js ''A'', js ''B'']"
    by (rule trans)
  show ?thesis
    by (rule exI [of _ gs]) (rule conjI [OF run ids'])
qed

subsection \<open>Regrouping\<close>

text \<open>
  Claim C6. The grouping is a function of the input sequence alone, so two runs on the
  same input agree. Whenever it returns groups, putting their messages back into one
  sequence, group after group, and grouping again returns the same groups: same order,
  same messages, previews and counts. (When it throws there are no groups to regroup.)
\<close>

theorem groupBySession_regroup_idempotent:
  assumes "groupBySession chats = Inr gs"
  shows "groupBySession (flatten gs) = Inr gs"
proof -
  let ?es = "Object_entries (partitionBySession chats)"
  from assms have ok: "\<forall>m \<in> set chats. msg_sessionId m \<notin> set objectPrototypeKeys"
    and gs: "gs = map sessionSummary ?es"
    by (auto simp: groupBySession_closed_form split: if_splits)
  have wg: "well_grouped ?es"
    by (intro well_grouped_Object_entries well_grouped_partition)
  have fl: "flatten gs = concat (map snd ?es)"
    unfolding flatten_def gs msgs_sessionSummary ..
  have "set (concat (map snd ?es)) \<subseteq> set chats"
    by (auto simp: set_Object_entries partitionBySession_def)
  with ok have ok': "\<forall>m \<in> set (flatten gs). msg_sessionId m \<notin> set objectPrototypeKeys"
    unfolding fl by blast
  have "partitionBySession (flatten gs) = ?es"
    unfolding fl using wg by (rule partition_of_groups)
  with ok' show ?thesis
    by (simp add: groupBySession_closed_form Object_entries_idem gs)
qed

theorem groupBySession_regroup_idempotent_witness:
  "groupBySession (flatten (map sessionSummary
       [(js ''1'', [hmsg ''1'' ''user'' ''c'']),
        (js ''2'', [hmsg ''2'' ''user'' ''a'', hmsg ''2'' ''assistant'' ''d'']),
        (js ''B'', [hmsg ''B'' ''user'' ''b''])]))
   = groupBySession [hmsg ''2'' ''user'' ''a'', hmsg ''B'' ''user'' ''b'',
                     hmsg ''1'' ''user'' ''c'', hmsg ''2'' ''assistant'' ''d'']"
proof -
  have h: "groupBySession [hmsg ''2'' ''user'' ''a'', hmsg ''B'' ''user'' ''b'',
                           hmsg ''1'' ''user'' ''c'', hmsg ''2'' ''assistant'' ''d'']
      = Inr (map sessionSummary
          [(js ''1'', [hmsg ''1'' ''user'' ''c'']),
           (js ''2'', [hmsg ''2'' ''user'' ''a'', hmsg ''2'' ''assistant'' ''d'']),
           (js ''B'', [hmsg ''B'' ''user'' ''b''])])"
    by (simp add: groupBySession_def groupMessage_def getProperty_def objectPrototypeKeys_def
        Object_entries_def isArrayIndex_def isDigit_def digitsValue_def js_def hmsg_def Let_def)
  show ?thesis
    using groupBySession_regroup_idempotent [OF h] h by simp
qed

subsection \<open>Preview\<close>

text \<open>
  Claim C9. The history item shows the first 100 code units of the preview, followed by
  three dots exactly when the preview is longer than 100: a preview of 150 gives 100 and
  the dots, a preview of 50 is shown whole with nothing after it.
\<close>

theorem history_preview_truncates_at_100:
  "(length (preview g) > 100 \<longrightarrow>
      history_preview g = take 100 (preview g) @ js ''...''
      \<and> length (take 100 (preview g)) = 100)
   \<and> (length (preview g) \<le> 100 \<longrightarrow> history_preview g = preview g)
   \<and> (length (preview g) = 150 \<longrightarrow> length (history_preview g) = 100 + length (js ''...''))
   \<and> (length (preview g) = 50 \<longrightarrow> history_preview g = preview g)"
  by (simp add: history_preview_def js_def)

theorem history_preview_truncates_at_100_witness:
  "length (preview long_group) = 150
   \<and> history_preview long_group = replicate 100 0x61 @ js ''...''
   \<and> length (preview short_group) = 50
   \<and> history_preview short_group = replicate 50 0x61"
proof -
  have l: "preview long_group = replicate 150 0x61"
    by (simp add: long_group_def sessionSummary_def truthy_def)
  have s: "preview short_group = replicate 50 0x61"
    by (simp add: short_group_def sessionSummary_def truthy_def)
  show ?thesis
    using history_preview_truncates_at_100 [of long_group]
      history_preview_truncates_at_100 [of short_group]
    by (simp add: l s)
qed

text \<open>
  Claim C10. When the first message with role "user" in a group has the empty string as
  content, the preview is "Chat session", although the group has a user message: the
  \<open>||\<close> falls back on any falsy content.
\<close>

theorem preview_falls_back_on_empty_content:
  assumes "find (\<lambda>m. role m = js ''user'') ms = Some m" and "content m = []"
  shows "preview (sessionSummary (k, ms)) = js ''Chat session''"
  using assms by (simp add: sessionSummary_def truthy_def)

theorem preview_falls_back_on_empty_content_witness:
  "preview (sessionSummary (js ''A'',
      [hmsg ''A'' ''assistant'' ''x'', hmsg ''A'' ''user'' [], hmsg ''A'' ''user'' ''later'']))
   = js ''Chat session''"
proof -
  have f: "find (\<lambda>m. role m = js ''user'')
       [hmsg ''A'' ''assistant'' ''x'', hmsg ''A'' ''user'' [], hmsg ''A'' ''user'' ''later'']
     = Some (hmsg ''A'' ''user'' [])"
    by (simp add: hmsg_def js_def)
  have c: "content (hmsg ''A'' ''user'' []) = []"
    by (simp add: hmsg_def js_def)
  show ?thesis
    using preview_falls_back_on_empty_content [OF f c] .
qed

end
